theory Spec2Isabelle
  imports Main "HOL-Library.AList" "HOL-Library.Sublist" "HOL-Library.Multiset"
begin

section \<open>Errors and log sinks\<close>

text \<open>
  A Go \<^verbatim>\<open>error\<close> is modelled by its message; the nil error is \<open>None\<close> of
  \<open>error option\<close>. \<^verbatim>\<open>errors.New\<close> and \<^verbatim>\<open>errors.Wrap\<close> are those of
  \<^verbatim>\<open>github.com/pkg/errors\<close>: the message of a wrapped error is the context, a colon
  and a blank, and the message of the cause. \<^verbatim>\<open>Wrap\<close> is only ever called under
  \<^verbatim>\<open>err != nil\<close>, so it is modelled on the non-nil cause.
\<close>

type_synonym error = string

definition New :: "string \<Rightarrow> error" where
  "New message = message"

definition Wrap :: "error \<Rightarrow> string \<Rightarrow> error" where
  "Wrap err message = message @ '': '' @ err"

text \<open>
  A \<^verbatim>\<open>logrus.FieldLogger\<close> is modelled by the entries written to it so far: a
  logging call appends one entry.
\<close>

datatype level = InfoLevel | WarnLevel | ErrorLevel

type_synonym logger = "(level \<times> string) list"

definition Info :: "string \<Rightarrow> logger \<Rightarrow> logger" where
  "Info message lg = lg @ [(InfoLevel, message)]"

definition Warn :: "string \<Rightarrow> logger \<Rightarrow> logger" where
  "Warn message lg = lg @ [(WarnLevel, message)]"

definition Error :: "string \<Rightarrow> logger \<Rightarrow> logger" where
  "Error message lg = lg @ [(ErrorLevel, message)]"

text \<open>The warnings among the entries of a log.\<close>

definition warnings :: "logger \<Rightarrow> string list" where
  "warnings lg = map snd (filter (\<lambda>e. fst e = WarnLevel) lg)"

section \<open>Installation databases (package model)\<close>

definition InstallationDatabaseMysqlOperator :: string where
  "InstallationDatabaseMysqlOperator = ''mysql-operator''"

definition InstallationDatabaseSingleTenantRDSMySQL :: string where
  "InstallationDatabaseSingleTenantRDSMySQL = ''aws-rds''"

definition InstallationDatabaseSingleTenantRDSPostgres :: string where
  "InstallationDatabaseSingleTenantRDSPostgres = ''aws-rds-postgres''"

definition InstallationDatabaseMultiTenantRDSMySQL :: string where
  "InstallationDatabaseMultiTenantRDSMySQL = ''aws-multitenant-rds''"

definition InstallationDatabaseMultiTenantRDSPostgres :: string where
  "InstallationDatabaseMultiTenantRDSPostgres = ''aws-multitenant-rds-postgres''"

text \<open>
  \<^verbatim>\<open>IsSupportedDatabase\<close>: a Go \<^verbatim>\<open>switch\<close> does not fall through, so each of
  the five empty cases leaves the switch and reaches \<^verbatim>\<open>return true\<close>; only the
  default case returns false. The cases are tried in the order of the source.
\<close>

definition IsSupportedDatabase :: "string \<Rightarrow> bool" where
  "IsSupportedDatabase database =
     (if database = InstallationDatabaseSingleTenantRDSMySQL then True
      else if database = InstallationDatabaseSingleTenantRDSPostgres then True
      else if database = InstallationDatabaseMultiTenantRDSMySQL then True
      else if database = InstallationDatabaseMultiTenantRDSPostgres then True
      else if database = InstallationDatabaseMysqlOperator then True
      else False)"

text \<open>
  The methods of \<^verbatim>\<open>MysqlOperatorDatabase\<close> (an empty struct). The store is never
  used, so its type is left open; each method returns its error and the logger as
  it leaves it.
\<close>

definition MysqlOperatorDatabase_Provision :: "'store \<Rightarrow> logger \<Rightarrow> error option \<times> logger" where
  "MysqlOperatorDatabase_Provision store lg =
     (None, Info ''MySQL operator database requires no pre-provisioning; skipping...'' lg)"

definition MysqlOperatorDatabase_Snapshot :: "'store \<Rightarrow> logger \<Rightarrow> error option \<times> logger" where
  "MysqlOperatorDatabase_Snapshot store lg =
     (Some (New ''not implemented''),
      Error ''Snapshotting is not supported by the MySQL operator.'' lg)"

definition MysqlOperatorDatabase_Teardown ::
  "'store \<Rightarrow> bool \<Rightarrow> logger \<Rightarrow> error option \<times> logger" where
  "MysqlOperatorDatabase_Teardown store keepData lg =
     (let lg1 = Info ''MySQL operator database requires no teardown; skipping...'' lg;
          lg2 = (if keepData
                 then Warn ''Database preservation was requested, but isn't currently possible with the MySQL operator'' lg1
                 else lg1)
      in (None, lg2))"

section \<open>Utilities and the utility group (package provisioner)\<close>

text \<open>
  The \<^verbatim>\<open>Utility\<close> interface. Its implementations act on the Kubernetes cluster and on
  their own fields; all of that is the world \<open>'w\<close>, which a call takes and returns.
  \<^verbatim>\<open>ActualVersion\<close> reads the world; \<^verbatim>\<open>Name\<close> and \<^verbatim>\<open>DesiredVersion\<close> are fixed when
  the handle is built.
\<close>

record 'w Utility =
  CreateOrUpgrade :: "'w \<Rightarrow> error option \<times> 'w"
  Destroy :: "'w \<Rightarrow> error option \<times> 'w"
  ActualVersion :: "'w \<Rightarrow> string"
  DesiredVersion :: string
  Name :: string

text \<open>
  Modelled from the spec: the type \<^verbatim>\<open>model.Cluster\<close> and its method
  \<^verbatim>\<open>SetUtilityActualVersion\<close> are not in the sources. The spec gives the cluster
  record a mapping from a utility's canonical name to its desired version and one to
  its actual version, listed in insertion order, and describes the method as writing
  the actual version under the canonical name. It names no condition under which the
  write fails, so the modelled write returns the nil error; the callers keep the
  branch of the source for an error of the write. The mappings are association lists:
  writing a name that is present replaces its version in place, writing a new name
  appends it.
\<close>

record Cluster =
  DesiredVersions :: "(string \<times> string) list"
  ActualVersions :: "(string \<times> string) list"

text \<open>
  Modelled from the spec: \<^verbatim>\<open>Cluster.SetUtilityActualVersion\<close>, which is not in the
  sources, writes the actual version under the canonical name and returns the nil error.
\<close>

definition SetUtilityActualVersion :: "string \<Rightarrow> string \<Rightarrow> Cluster \<Rightarrow> error option \<times> Cluster" where
  "SetUtilityActualVersion utility version c =
     (None, c\<lparr>ActualVersions := AList.update utility version (ActualVersions c)\<rparr>)"

text \<open>
  What a run can be observed to do: the calls it makes to its collaborators, in the
  order it makes them, and the lines it logs.
\<close>

datatype event =
    CalledInstallHelm
  | CalledHelmRepoAdd string string
  | CalledCreateOrUpgrade string
  | CalledDestroy string
  | CalledSetUtilityActualVersion string string
  | Logged level string

text \<open>
  The state the methods of a group act on: the world of the utilities and of Helm,
  the cluster record the group points to, and the events so far.
\<close>

record 'w state =
  world :: 'w
  cluster :: Cluster
  events :: "event list"

text \<open>
  \<^verbatim>\<open>utilityGroup\<close>. Its fields \<^verbatim>\<open>kops\<close>, \<^verbatim>\<open>provisioner\<close> and \<^verbatim>\<open>cluster\<close> are
  pointers: what they point to is in the state.
\<close>

record 'w utilityGroup =
  utilities :: "'w Utility list"

text \<open>
  \<^verbatim>\<open>installHelm\<close> and \<^verbatim>\<open>helmRepoAdd\<close> are not in the sources: they are parameters,
  acting on the world.
\<close>

record 'w helm =
  installHelm :: "(string \<times> string) list \<Rightarrow> 'w \<Rightarrow> error option \<times> 'w"
  helmRepoAdd :: "string \<Rightarrow> string \<Rightarrow> 'w \<Rightarrow> error option \<times> 'w"

definition helmRepos :: "(string \<times> string) list" where
  "helmRepos =
     [(''stable'', ''https://kubernetes-charts.storage.googleapis.com''),
      (''chartmuseum'', ''https://chartmuseum.internal.core.cloud.mattermost.com''),
      (''ingress-nginx'', ''https://kubernetes.github.io/ingress-nginx'')]"

text \<open>
  The constants, the cluster's \<^verbatim>\<open>DesiredUtilityVersion\<close> and the four handle
  constructors that \<^verbatim>\<open>newUtilityGroupHandle\<close> calls are not in the sources: they are
  parameters. A constructor returns its error or its handle.
\<close>

record 'w handles =
  NginxCanonicalName :: string
  FluentbitCanonicalName :: string
  TeleportCanonicalName :: string
  DesiredUtilityVersion :: "Cluster \<Rightarrow> string \<Rightarrow> error + string"
  newNginxHandle :: "string \<Rightarrow> error + 'w Utility"
  newPrometheusHandle :: "Cluster \<Rightarrow> error + 'w Utility"
  newFluentbitHandle :: "string \<Rightarrow> error + 'w Utility"
  newTeleportHandle :: "Cluster \<Rightarrow> string \<Rightarrow> error + 'w Utility"

text \<open>
  \<^verbatim>\<open>newUtilityGroupHandle\<close> returns a pointer to a group and an error: the pair of an
  optional group (\<open>None\<close> is the nil pointer) and an optional error.
\<close>

definition newUtilityGroupHandle ::
  "'w handles \<Rightarrow> Cluster \<Rightarrow> 'w utilityGroup option \<times> error option" where
  "newUtilityGroupHandle d c =
     (case DesiredUtilityVersion d c (NginxCanonicalName d) of
        Inl err \<Rightarrow> (None, Some err)
      | Inr desiredVersion \<Rightarrow>
     (case newNginxHandle d desiredVersion of
        Inl err \<Rightarrow> (None, Some (Wrap err ''failed to get handle for NGINX''))
      | Inr nginx \<Rightarrow>
     (case newPrometheusHandle d c of
        Inl err \<Rightarrow> (None, Some (Wrap err ''failed to get handle for Prometheus''))
      | Inr prometheus \<Rightarrow>
     (case DesiredUtilityVersion d c (FluentbitCanonicalName d) of
        Inl err \<Rightarrow> (None, Some err)
      | Inr desiredVersion \<Rightarrow>
     (case newFluentbitHandle d desiredVersion of
        Inl err \<Rightarrow> (None, Some (Wrap err ''failed to get handle for Fluentbit''))
      | Inr fluentbit \<Rightarrow>
     (case DesiredUtilityVersion d c (TeleportCanonicalName d) of
        Inl err \<Rightarrow> (None, Some err)
      | Inr desiredVersion \<Rightarrow>
     (case newTeleportHandle d c desiredVersion of
        Inl err \<Rightarrow> (None, Some (Wrap err ''failed to get handle for Teleport''))
      | Inr teleport \<Rightarrow>
          (Some \<lparr>utilities = [nginx, prometheus, fluentbit, teleport]\<rparr>, None))))))))"

definition CreateUtilityGroup :: "'w utilityGroup \<Rightarrow> 'w state \<Rightarrow> error option \<times> 'w state" where
  "CreateUtilityGroup grp s = (None, s)"

text \<open>The loop of \<^verbatim>\<open>DestroyUtilityGroup\<close> over the utilities of the group.\<close>

fun destroyUtilities :: "'w Utility list \<Rightarrow> 'w state \<Rightarrow> error option \<times> 'w state" where
  "destroyUtilities [] s = (None, s)"
| "destroyUtilities (utility # rest) s =
     (let (err, w) = Destroy utility (world s);
          s1 = s\<lparr>world := w, events := events s @ [CalledDestroy (Name utility)]\<rparr>
      in case err of
           Some e \<Rightarrow> (Some (Wrap e ''failed to destroy one of the cluster utilities''), s1)
         | None \<Rightarrow>
             (let (err, c) = SetUtilityActualVersion (Name utility) (ActualVersion utility w) (cluster s1);
                  s2 = s1\<lparr>cluster := c,
                          events := events s1 @
                            [CalledSetUtilityActualVersion (Name utility) (ActualVersion utility w)]\<rparr>
              in case err of
                   Some e \<Rightarrow> (Some e, s2)
                 | None \<Rightarrow> destroyUtilities rest s2))"

definition DestroyUtilityGroup :: "'w utilityGroup \<Rightarrow> 'w state \<Rightarrow> error option \<times> 'w state" where
  "DestroyUtilityGroup grp s = destroyUtilities (utilities grp) s"

text \<open>
  The loop of \<^verbatim>\<open>ProvisionUtilityGroup\<close> over \<^verbatim>\<open>helmRepos\<close>. Go visits the entries
  of a map in an order it does not specify: the order of the visit is the list given.
\<close>

fun addHelmRepos ::
  "'w helm \<Rightarrow> (string \<times> string) list \<Rightarrow> 'w state \<Rightarrow> error option \<times> 'w state" where
  "addHelmRepos h [] s = (None, s)"
| "addHelmRepos h ((repoName, repoURL) # rest) s =
     (let (err, w) = helmRepoAdd h repoName repoURL (world s);
          s1 = s\<lparr>world := w, events := events s @ [CalledHelmRepoAdd repoName repoURL]\<rparr>
      in case err of
           Some e \<Rightarrow> (Some (Wrap e ''unable to add helm repos''), s1)
         | None \<Rightarrow> addHelmRepos h rest s1)"

text \<open>The loop of \<^verbatim>\<open>ProvisionUtilityGroup\<close> over the utilities of the group.\<close>

fun provisionUtilities :: "'w Utility list \<Rightarrow> 'w state \<Rightarrow> error option \<times> 'w state" where
  "provisionUtilities [] s = (None, s)"
| "provisionUtilities (utility # rest) s =
     (let (err, w) = CreateOrUpgrade utility (world s);
          s1 = s\<lparr>world := w, events := events s @ [CalledCreateOrUpgrade (Name utility)]\<rparr>
      in case err of
           Some e \<Rightarrow> (Some (Wrap e ''failed to upgrade one of the cluster utilities''), s1)
         | None \<Rightarrow>
             (let (err, c) = SetUtilityActualVersion (Name utility) (ActualVersion utility w) (cluster s1);
                  s2 = s1\<lparr>cluster := c,
                          events := events s1 @
                            [CalledSetUtilityActualVersion (Name utility) (ActualVersion utility w)]\<rparr>
              in case err of
                   Some e \<Rightarrow> (Some e, s2)
                 | None \<Rightarrow> provisionUtilities rest s2))"

text \<open>
  \<^verbatim>\<open>ProvisionUtilityGroup\<close>; \<open>repoOrder\<close> is the order in which this run visits the
  entries of \<^verbatim>\<open>helmRepos\<close>.
\<close>

definition ProvisionUtilityGroup ::
  "'w helm \<Rightarrow> (string \<times> string) list \<Rightarrow> 'w utilityGroup \<Rightarrow> 'w state \<Rightarrow> error option \<times> 'w state" where
  "ProvisionUtilityGroup h repoOrder grp s =
     (let (err, w) = installHelm h helmRepos (world s);
          s1 = s\<lparr>world := w, events := events s @ [CalledInstallHelm]\<rparr>
      in case err of
           Some e \<Rightarrow>
             (Some (Wrap e ''failed to set up Helm as a prerequisite to installing the cluster utilities''), s1)
         | None \<Rightarrow>
             (let s2 = s1\<lparr>events := events s1 @ [Logged InfoLevel ''Adding new Helm repos.'']\<rparr>;
                  (err, s3) = addHelmRepos h repoOrder s2
              in case err of
                   Some e \<Rightarrow> (Some e, s3)
                 | None \<Rightarrow> provisionUtilities (utilities grp) s3))"

section \<open>Observations on a run\<close>

text \<open>The events a run added: those of the state it left beyond those of the state it began in.\<close>

definition newEvents :: "'w state \<Rightarrow> 'w state \<Rightarrow> event list" where
  "newEvents s s' = drop (length (events s)) (events s')"

text \<open>The names of the utilities on which \<^verbatim>\<open>CreateOrUpgrade\<close> was called, in the order of the calls.\<close>

definition createOrUpgradeCalls :: "event list \<Rightarrow> string list" where
  "createOrUpgradeCalls evs =
     concat (map (\<lambda>e. case e of CalledCreateOrUpgrade n \<Rightarrow> [n] | _ \<Rightarrow> []) evs)"

text \<open>The names of the utilities on which \<^verbatim>\<open>Destroy\<close> was called, in the order of the calls.\<close>

definition destroyCalls :: "event list \<Rightarrow> string list" where
  "destroyCalls evs =
     concat (map (\<lambda>e. case e of CalledDestroy n \<Rightarrow> [n] | _ \<Rightarrow> []) evs)"

text \<open>The arguments of the calls of \<^verbatim>\<open>SetUtilityActualVersion\<close>, in the order of the calls.\<close>

definition setUtilityActualVersionCalls :: "event list \<Rightarrow> (string \<times> string) list" where
  "setUtilityActualVersionCalls evs =
     concat (map (\<lambda>e. case e of CalledSetUtilityActualVersion n v \<Rightarrow> [(n, v)] | _ \<Rightarrow> []) evs)"

text \<open>The arguments of the calls of \<^verbatim>\<open>helmRepoAdd\<close>, in the order of the calls.\<close>

definition helmRepoAddCalls :: "event list \<Rightarrow> (string \<times> string) list" where
  "helmRepoAddCalls evs =
     concat (map (\<lambda>e. case e of CalledHelmRepoAdd n u \<Rightarrow> [(n, u)] | _ \<Rightarrow> []) evs)"

text \<open>
  The steps of \<^verbatim>\<open>ProvisionUtilityGroup\<close> that come before its loop over the utilities
  (setting up Helm and adding the repositories) are all it does for a group without
  utilities.
\<close>

definition helmPrerequisites ::
  "'w helm \<Rightarrow> (string \<times> string) list \<Rightarrow> 'w state \<Rightarrow> error option \<times> 'w state" where
  "helmPrerequisites h repoOrder s = ProvisionUtilityGroup h repoOrder \<lparr>utilities = []\<rparr> s"

text \<open>The world after \<^verbatim>\<open>CreateOrUpgrade\<close> has been called on each utility of a list in turn.\<close>

definition worldAfter :: "'w Utility list \<Rightarrow> 'w \<Rightarrow> 'w" where
  "worldAfter us w = fold (\<lambda>u w. snd (CreateOrUpgrade u w)) us w"

text \<open>
  The name and the actual version that each utility of a list reports right after
  its own \<^verbatim>\<open>CreateOrUpgrade\<close>, when the calls are made in turn from the world \<open>w\<close>.
\<close>

fun reportedVersions :: "'w Utility list \<Rightarrow> 'w \<Rightarrow> (string \<times> string) list" where
  "reportedVersions [] w = []"
| "reportedVersions (u # us) w =
     (let w' = snd (CreateOrUpgrade u w)
      in (Name u, ActualVersion u w') # reportedVersions us w')"

text \<open>Writing a list of versions, one after the other, into a mapping of the cluster record.\<close>

definition writeVersions ::
  "(string \<times> string) list \<Rightarrow> (string \<times> string) list \<Rightarrow> (string \<times> string) list" where
  "writeVersions ps al = fold (\<lambda>(n, v). AList.update n v) ps al"

text \<open>The events of provisioning utilities that report the given versions, all succeeding.\<close>

definition provisionEvents :: "(string \<times> string) list \<Rightarrow> event list" where
  "provisionEvents ps =
     concat (map (\<lambda>(n, v). [CalledCreateOrUpgrade n, CalledSetUtilityActualVersion n v]) ps)"

text \<open>An error message names a utility when the utility's name occurs in it.\<close>

definition namesUtility :: "error \<Rightarrow> string \<Rightarrow> bool" where
  "namesUtility err name = sublist name err"

section \<open>Sample collaborators\<close>

text \<open>
  Sample implementations of the interfaces, over a world that lists the version
  deployed of each chart. A chart utility deploys its desired version and reports the
  version deployed (the empty string when there is none); a broken utility fails every
  call and leaves the world as it is; the quiet Helm succeeds and does nothing.
\<close>

type_synonym charts = "(string \<times> string) list"

definition chartUtility :: "string \<Rightarrow> string \<Rightarrow> charts Utility" where
  "chartUtility name version =
     \<lparr>CreateOrUpgrade = (\<lambda>w. (None, AList.update name version w)),
      Destroy = (\<lambda>w. (None, AList.delete name w)),
      ActualVersion = (\<lambda>w. case map_of w name of Some v \<Rightarrow> v | None \<Rightarrow> []),
      DesiredVersion = version,
      Name = name\<rparr>"

definition brokenUtility :: "string \<Rightarrow> error \<Rightarrow> charts Utility" where
  "brokenUtility name err =
     \<lparr>CreateOrUpgrade = (\<lambda>w. (Some err, w)),
      Destroy = (\<lambda>w. (Some err, w)),
      ActualVersion = (\<lambda>w. case map_of w name of Some v \<Rightarrow> v | None \<Rightarrow> []),
      DesiredVersion = [],
      Name = name\<rparr>"

definition quietHelm :: "charts helm" where
  "quietHelm =
     \<lparr>installHelm = (\<lambda>repos w. (None, w)),
      helmRepoAdd = (\<lambda>repoName repoURL w. (None, w))\<rparr>"

definition sampleHandles :: "charts handles" where
  "sampleHandles =
     \<lparr>NginxCanonicalName = ''nginx'',
      FluentbitCanonicalName = ''fluentbit'',
      TeleportCanonicalName = ''teleport'',
      DesiredUtilityVersion =
        (\<lambda>c name. case map_of (DesiredVersions c) name of Some v \<Rightarrow> Inr v | None \<Rightarrow> Inr []),
      newNginxHandle = (\<lambda>v. Inr (chartUtility ''nginx'' v)),
      newPrometheusHandle = (\<lambda>c. Inr (chartUtility ''prometheus'' ''10.4.0'')),
      newFluentbitHandle =
        (\<lambda>v. if v = ''unbuildable'' then Inl ''no such chart'' else Inr (chartUtility ''fluentbit'' v)),
      newTeleportHandle = (\<lambda>c v. Inr (chartUtility ''teleport'' v))\<rparr>"

definition freshState :: "Cluster \<Rightarrow> charts state" where
  "freshState c = \<lparr>world = [], cluster = c, events = []\<rparr>"

definition sampleGroup :: "charts utilityGroup" where
  "sampleGroup =
     \<lparr>utilities = [chartUtility ''nginx'' ''1.30.0'', chartUtility ''prometheus'' ''10.4.0'',
                   chartUtility ''fluentbit'' ''2.8.7'', chartUtility ''teleport'' ''0.3.0'']\<rparr>"

definition brokenGroup :: "charts utilityGroup" where
  "brokenGroup =
     \<lparr>utilities = [chartUtility ''nginx'' ''1.30.0'', chartUtility ''prometheus'' ''10.4.0'',
                   brokenUtility ''fluentbit'' ''boom'', chartUtility ''teleport'' ''0.3.0'']\<rparr>"



text \<open>A cluster record on which versions of three of the utilities were recorded before.\<close>

definition deployedCluster :: Cluster where
  "deployedCluster =
     \<lparr>DesiredVersions = [],
      ActualVersions = [(''nginx'', ''1.29.0''), (''fluentbit'', ''2.8.0''), (''teleport'', ''0.2.0'')]\<rparr>"

text \<open>
  The scenario of the specification: a cluster whose desired versions are v2 for the
  ingress and v5 for the metrics, with no actual version yet, and the group of these
  two utilities.
\<close>

definition scenarioCluster :: Cluster where
  "scenarioCluster =
     \<lparr>DesiredVersions = [(''ingress'', ''v2''), (''metrics'', ''v5'')], ActualVersions = []\<rparr>"

definition scenarioGroup :: "charts utilityGroup" where
  "scenarioGroup =
     \<lparr>utilities = map (\<lambda>(name, version). chartUtility name version) (DesiredVersions scenarioCluster)\<rparr>"

section \<open>The loops\<close>

lemma provisionUtilities_append:
  "provisionUtilities (us @ vs) s =
     (case provisionUtilities us s of
        (None, s1) \<Rightarrow> provisionUtilities vs s1
      | (Some e, s1) \<Rightarrow> (Some e, s1))"
  by (induction us arbitrary: s)
     (auto simp: Let_def SetUtilityActualVersion_def split: prod.splits option.splits)

lemma destroyUtilities_append:
  "destroyUtilities (us @ vs) s =
     (case destroyUtilities us s of
        (None, s1) \<Rightarrow> destroyUtilities vs s1
      | (Some e, s1) \<Rightarrow> (Some e, s1))"
  by (induction us arbitrary: s)
     (auto simp: Let_def SetUtilityActualVersion_def split: prod.splits option.splits)

lemma provisionUtilities_success:
  "provisionUtilities us s = (None, s') \<Longrightarrow>
     s' = s\<lparr>world := worldAfter us (world s),
           cluster := (cluster s)\<lparr>ActualVersions :=
              writeVersions (reportedVersions us (world s)) (ActualVersions (cluster s))\<rparr>,
           events := events s @ provisionEvents (reportedVersions us (world s))\<rparr>"
proof (induction us arbitrary: s)
  case Nil
  then show ?case by (simp add: worldAfter_def writeVersions_def provisionEvents_def)
next
  case (Cons u us)
  obtain err w where cu: "CreateOrUpgrade u (world s) = (err, w)" by (cases "CreateOrUpgrade u (world s)")
  with Cons.prems have err: "err = None"
    by (auto simp: Let_def split: option.splits)
  define s2 where "s2 = s\<lparr>world := w,
      cluster := (cluster s)\<lparr>ActualVersions := AList.update (Name u) (ActualVersion u w) (ActualVersions (cluster s))\<rparr>,
      events := events s @ [CalledCreateOrUpgrade (Name u), CalledSetUtilityActualVersion (Name u) (ActualVersion u w)]\<rparr>"
  from Cons.prems cu err have "provisionUtilities us s2 = (None, s')"
    by (simp add: Let_def SetUtilityActualVersion_def s2_def)
  from Cons.IH[OF this] show ?case
    by (simp add: s2_def cu worldAfter_def writeVersions_def provisionEvents_def Let_def)
qed

lemma provisionUtilities_world:
  "provisionUtilities us s = (None, s') \<Longrightarrow> world s' = worldAfter us (world s)"
  by (drule provisionUtilities_success) simp

lemma provisionUtilities_fails_at:
  assumes k: "k < length us"
    and pre: "provisionUtilities (take k us) s = (None, s1)"
    and fail: "CreateOrUpgrade (us ! k) (world s1) = (Some e, w)"
  shows "provisionUtilities us s =
           (Some (Wrap e ''failed to upgrade one of the cluster utilities''),
            s1\<lparr>world := w, events := events s1 @ [CalledCreateOrUpgrade (Name (us ! k))]\<rparr>)"
proof -
  have "us = take k us @ us ! k # drop (Suc k) us"
    using k by (simp add: id_take_nth_drop)
  then have "provisionUtilities us s = provisionUtilities (take k us @ us ! k # drop (Suc k) us) s"
    by simp
  also have "\<dots> = provisionUtilities (us ! k # drop (Suc k) us) s1"
    by (simp add: provisionUtilities_append pre)
  also have "\<dots> = (Some (Wrap e ''failed to upgrade one of the cluster utilities''),
            s1\<lparr>world := w, events := events s1 @ [CalledCreateOrUpgrade (Name (us ! k))]\<rparr>)"
    by (simp add: fail)
  finally show ?thesis .
qed

lemma destroyUtilities_fails_at:
  assumes k: "k < length us"
    and pre: "destroyUtilities (take k us) s = (None, s1)"
    and fail: "Destroy (us ! k) (world s1) = (Some e, w)"
  shows "destroyUtilities us s =
           (Some (Wrap e ''failed to destroy one of the cluster utilities''),
            s1\<lparr>world := w, events := events s1 @ [CalledDestroy (Name (us ! k))]\<rparr>)"
proof -
  have "us = take k us @ us ! k # drop (Suc k) us"
    using k by (simp add: id_take_nth_drop)
  then have "destroyUtilities us s = destroyUtilities (take k us @ us ! k # drop (Suc k) us) s"
    by simp
  also have "\<dots> = destroyUtilities (us ! k # drop (Suc k) us) s1"
    by (simp add: destroyUtilities_append pre)
  also have "\<dots> = (Some (Wrap e ''failed to destroy one of the cluster utilities''),
            s1\<lparr>world := w, events := events s1 @ [CalledDestroy (Name (us ! k))]\<rparr>)"
    by (simp add: fail)
  finally show ?thesis .
qed

lemma provisionUtilities_all_succeed:
  "\<forall>i<length us. fst (CreateOrUpgrade (us ! i) (worldAfter (take i us) (world s))) = None \<Longrightarrow>
     \<exists>s'. provisionUtilities us s = (None, s')"
proof (induction us rule: rev_induct)
  case Nil
  then show ?case by simp
next
  case (snoc u us)
  have "\<forall>i<length us. fst (CreateOrUpgrade (us ! i) (worldAfter (take i us) (world s))) = None"
  proof (intro allI impI)
    fix i assume i: "i < length us"
    with snoc.prems have "fst (CreateOrUpgrade ((us @ [u]) ! i) (worldAfter (take i (us @ [u])) (world s))) = None"
      by simp
    with i show "fst (CreateOrUpgrade (us ! i) (worldAfter (take i us) (world s))) = None"
      by (simp add: nth_append)
  qed
  from snoc.IH[OF this] obtain s1 where s1: "provisionUtilities us s = (None, s1)" by blast
  have w1: "world s1 = worldAfter us (world s)" by (rule provisionUtilities_world[OF s1])
  have "length us < length (us @ [u])" by simp
  with snoc.prems have "fst (CreateOrUpgrade ((us @ [u]) ! length us) (worldAfter (take (length us) (us @ [u])) (world s))) = None"
    by blast
  then have "fst (CreateOrUpgrade u (world s1)) = None" by (simp add: w1)
  then show ?case
    by (cases "CreateOrUpgrade u (world s1)")
       (simp add: provisionUtilities_append s1 Let_def SetUtilityActualVersion_def)
qed

lemma createOrUpgradeCalls_append [simp]:
  "createOrUpgradeCalls (xs @ ys) = createOrUpgradeCalls xs @ createOrUpgradeCalls ys"
  by (simp add: createOrUpgradeCalls_def)

lemma destroyCalls_append [simp]:
  "destroyCalls (xs @ ys) = destroyCalls xs @ destroyCalls ys"
  by (simp add: destroyCalls_def)

lemma setUtilityActualVersionCalls_append [simp]:
  "setUtilityActualVersionCalls (xs @ ys) = setUtilityActualVersionCalls xs @ setUtilityActualVersionCalls ys"
  by (simp add: setUtilityActualVersionCalls_def)

lemma helmRepoAddCalls_append [simp]:
  "helmRepoAddCalls (xs @ ys) = helmRepoAddCalls xs @ helmRepoAddCalls ys"
  by (simp add: helmRepoAddCalls_def)



section \<open>The Helm prerequisites\<close>

lemma addHelmRepos_result:
  "\<exists>m. m \<le> length ro \<and> cluster (snd (addHelmRepos h ro s)) = cluster s \<and>
       events (snd (addHelmRepos h ro s)) =
         events s @ map (\<lambda>(n, u). CalledHelmRepoAdd n u) (take m ro) \<and>
       (fst (addHelmRepos h ro s) = None \<longrightarrow> m = length ro)"
proof (induction ro arbitrary: s)
  case Nil
  then show ?case by simp
next
  case (Cons r ro)
  obtain n u where r: "r = (n, u)" by (cases r)
  obtain err w where cu: "helmRepoAdd h n u (world s) = (err, w)" by (cases "helmRepoAdd h n u (world s)")
  define s1 where "s1 = s\<lparr>world := w, events := events s @ [CalledHelmRepoAdd n u]\<rparr>"
  show ?case
  proof (cases err)
    case (Some e)
    with cu r show ?thesis by (intro exI[of _ 1]) simp
  next
    case None
    have step: "addHelmRepos h (r # ro) s = addHelmRepos h ro s1"
      using cu None r by (simp add: s1_def)
    from Cons.IH[of s1] obtain m where m: "m \<le> length ro"
      "cluster (snd (addHelmRepos h ro s1)) = cluster s1"
      "events (snd (addHelmRepos h ro s1)) = events s1 @ map (\<lambda>(n, u). CalledHelmRepoAdd n u) (take m ro)"
      "fst (addHelmRepos h ro s1) = None \<longrightarrow> m = length ro"
      by (elim exE conjE) (rule that)
    then show ?thesis unfolding step
      by (intro exI[of _ "Suc m"]) (simp add: s1_def r)
  qed
qed

lemma helmRepoAdd_events_calls [simp]:
  "createOrUpgradeCalls (map (\<lambda>(n, u). CalledHelmRepoAdd n u) ro) = []"
  "setUtilityActualVersionCalls (map (\<lambda>(n, u). CalledHelmRepoAdd n u) ro) = []"
  "helmRepoAddCalls (map (\<lambda>(n, u). CalledHelmRepoAdd n u) ro) = ro"
  by (induction ro) (auto simp: createOrUpgradeCalls_def setUtilityActualVersionCalls_def helmRepoAddCalls_def)

lemma helmPrerequisites_result:
  "\<exists>evs. events (snd (helmPrerequisites h ro s)) = events s @ evs \<and>
         cluster (snd (helmPrerequisites h ro s)) = cluster s \<and>
         createOrUpgradeCalls evs = [] \<and> setUtilityActualVersionCalls evs = [] \<and>
         (fst (helmPrerequisites h ro s) = None \<longrightarrow>
            evs = [CalledInstallHelm, Logged InfoLevel ''Adding new Helm repos.''] @
                  map (\<lambda>(n, u). CalledHelmRepoAdd n u) ro)"
proof -
  obtain err w where ih: "installHelm h helmRepos (world s) = (err, w)"
    by (cases "installHelm h helmRepos (world s)")
  show ?thesis
  proof (cases err)
    case (Some e)
    with ih show ?thesis
      by (simp add: helmPrerequisites_def ProvisionUtilityGroup_def createOrUpgradeCalls_def
          setUtilityActualVersionCalls_def)
  next
    case None
    define s2 where "s2 = s\<lparr>world := w,
       events := events s @ [CalledInstallHelm, Logged InfoLevel ''Adding new Helm repos.'']\<rparr>"
    have hp: "helmPrerequisites h ro s = addHelmRepos h ro s2"
      using ih None
      by (cases "addHelmRepos h ro s2")
         (auto simp: helmPrerequisites_def ProvisionUtilityGroup_def Let_def s2_def
           split: option.splits)
    from addHelmRepos_result[of ro h s2] obtain m where m: "m \<le> length ro"
      "cluster (snd (addHelmRepos h ro s2)) = cluster s2"
      "events (snd (addHelmRepos h ro s2)) = events s2 @ map (\<lambda>(n, u). CalledHelmRepoAdd n u) (take m ro)"
      "fst (addHelmRepos h ro s2) = None \<longrightarrow> m = length ro"
      by (elim exE conjE) (rule that)
    let ?evs = "[CalledInstallHelm, Logged InfoLevel ''Adding new Helm repos.''] @
                  map (\<lambda>(n, u). CalledHelmRepoAdd n u) (take m ro)"
    have "events (snd (helmPrerequisites h ro s)) = events s @ ?evs"
      using m(3) by (simp add: hp s2_def)
    moreover have "cluster (snd (helmPrerequisites h ro s)) = cluster s"
      using m(2) by (simp add: hp s2_def)
    moreover have "createOrUpgradeCalls ?evs = []" "setUtilityActualVersionCalls ?evs = []"
      by (auto simp: createOrUpgradeCalls_def setUtilityActualVersionCalls_def)
    moreover have "fst (helmPrerequisites h ro s) = None \<longrightarrow> ?evs = [CalledInstallHelm, Logged InfoLevel ''Adding new Helm repos.''] @
                  map (\<lambda>(n, u). CalledHelmRepoAdd n u) ro"
      using m(4) by (simp add: hp)
    ultimately show ?thesis by (intro exI[of _ ?evs]) blast
  qed
qed

lemma ProvisionUtilityGroup_steps:
  "ProvisionUtilityGroup h ro g s =
     (case helmPrerequisites h ro s of
        (None, s0) \<Rightarrow> provisionUtilities (utilities g) s0
      | (Some e, s1) \<Rightarrow> (Some e, s1))"
  by (auto simp: helmPrerequisites_def ProvisionUtilityGroup_def Let_def
      split: prod.splits option.splits)

section \<open>The supported databases\<close>

lemmas database_names =
  InstallationDatabaseMysqlOperator_def InstallationDatabaseSingleTenantRDSMySQL_def
  InstallationDatabaseSingleTenantRDSPostgres_def InstallationDatabaseMultiTenantRDSMySQL_def
  InstallationDatabaseMultiTenantRDSPostgres_def

text \<open>
  C3: \<^verbatim>\<open>IsSupportedDatabase\<close> is true exactly of the five identifiers of the
  enumeration, and so false of every other string; the empty string is one of those.
\<close>

theorem IsSupportedDatabase_exactly_the_five:
  "(IsSupportedDatabase database \<longleftrightarrow>
      database \<in> {''mysql-operator'', ''aws-rds'', ''aws-rds-postgres'',
                   ''aws-multitenant-rds'', ''aws-multitenant-rds-postgres''}) \<and>
   IsSupportedDatabase InstallationDatabaseMysqlOperator \<and>
   IsSupportedDatabase InstallationDatabaseSingleTenantRDSMySQL \<and>
   IsSupportedDatabase InstallationDatabaseSingleTenantRDSPostgres \<and>
   IsSupportedDatabase InstallationDatabaseMultiTenantRDSMySQL \<and>
   IsSupportedDatabase InstallationDatabaseMultiTenantRDSPostgres \<and>
   \<not> IsSupportedDatabase []"
  unfolding IsSupportedDatabase_def database_names by auto

section \<open>The MySQL operator database\<close>

text \<open>
  C8: whatever the store and the logger, \<^verbatim>\<open>Snapshot\<close> returns the error
  ``not implemented'', which is not the nil error.
\<close>

theorem Snapshot_not_implemented:
  "fst (MysqlOperatorDatabase_Snapshot store lg) = Some ''not implemented'' \<and>
   fst (MysqlOperatorDatabase_Snapshot store lg) \<noteq> None"
  by (simp add: MysqlOperatorDatabase_Snapshot_def New_def)

text \<open>
  C9: \<^verbatim>\<open>Teardown\<close> returns the nil error with and without \<^verbatim>\<open>keepData\<close>. With it,
  the entries it writes to the logger hold one warning, that the database cannot be
  preserved; without it they hold no warning.
\<close>

theorem Teardown_warns_when_keepData:
  "fst (MysqlOperatorDatabase_Teardown store True lg) = None \<and>
   warnings (drop (length lg) (snd (MysqlOperatorDatabase_Teardown store True lg))) =
     [''Database preservation was requested, but isn't currently possible with the MySQL operator''] \<and>
   fst (MysqlOperatorDatabase_Teardown store False lg) = None \<and>
   warnings (drop (length lg) (snd (MysqlOperatorDatabase_Teardown store False lg))) = []"
  by (simp add: MysqlOperatorDatabase_Teardown_def Info_def Warn_def warnings_def)

section \<open>Creating a group\<close>

text \<open>
  C10: \<^verbatim>\<open>CreateUtilityGroup\<close> returns the nil error and leaves the state as it is: it
  adds no event, so it calls neither \<^verbatim>\<open>CreateOrUpgrade\<close> nor \<^verbatim>\<open>Destroy\<close>, and the cluster
  record is unchanged.
\<close>

theorem CreateUtilityGroup_does_nothing:
  "fst (CreateUtilityGroup g s) = None \<and>
   snd (CreateUtilityGroup g s) = s \<and>
   newEvents s (snd (CreateUtilityGroup g s)) = [] \<and>
   createOrUpgradeCalls (newEvents s (snd (CreateUtilityGroup g s))) = [] \<and>
   destroyCalls (newEvents s (snd (CreateUtilityGroup g s))) = [] \<and>
   cluster (snd (CreateUtilityGroup g s)) = cluster s"
  by (simp add: CreateUtilityGroup_def newEvents_def createOrUpgradeCalls_def destroyCalls_def)

section \<open>Building a group\<close>

lemma newUtilityGroupHandle_group:
  assumes "fst (newUtilityGroupHandle d c) = Some g"
  shows "\<exists>v1 v2 v3 nginx prometheus fluentbit teleport.
           DesiredUtilityVersion d c (NginxCanonicalName d) = Inr v1 \<and>
           newNginxHandle d v1 = Inr nginx \<and>
           newPrometheusHandle d c = Inr prometheus \<and>
           DesiredUtilityVersion d c (FluentbitCanonicalName d) = Inr v2 \<and>
           newFluentbitHandle d v2 = Inr fluentbit \<and>
           DesiredUtilityVersion d c (TeleportCanonicalName d) = Inr v3 \<and>
           newTeleportHandle d c v3 = Inr teleport \<and>
           utilities g = [nginx, prometheus, fluentbit, teleport] \<and>
           snd (newUtilityGroupHandle d c) = None"
  using assms unfolding newUtilityGroupHandle_def
  by (auto split: sum.splits)

lemma newUtilityGroupHandle_error:
  assumes "snd (newUtilityGroupHandle d c) = Some err"
  shows "fst (newUtilityGroupHandle d c) = None \<and>
         (DesiredUtilityVersion d c (NginxCanonicalName d) = Inl err \<or>
          (\<exists>v e. DesiredUtilityVersion d c (NginxCanonicalName d) = Inr v \<and>
                 newNginxHandle d v = Inl e \<and> err = Wrap e ''failed to get handle for NGINX'') \<or>
          (\<exists>e. newPrometheusHandle d c = Inl e \<and> err = Wrap e ''failed to get handle for Prometheus'') \<or>
          DesiredUtilityVersion d c (FluentbitCanonicalName d) = Inl err \<or>
          (\<exists>v e. DesiredUtilityVersion d c (FluentbitCanonicalName d) = Inr v \<and>
                 newFluentbitHandle d v = Inl e \<and> err = Wrap e ''failed to get handle for Fluentbit'') \<or>
          DesiredUtilityVersion d c (TeleportCanonicalName d) = Inl err \<or>
          (\<exists>v e. DesiredUtilityVersion d c (TeleportCanonicalName d) = Inr v \<and>
                 newTeleportHandle d c v = Inl e \<and> err = Wrap e ''failed to get handle for Teleport''))"
  using assms unfolding newUtilityGroupHandle_def
  by (auto split: sum.splits)

lemma newUtilityGroupHandle_fails:
  assumes "(\<exists>e. DesiredUtilityVersion d c (NginxCanonicalName d) = Inl e) \<or>
           (\<exists>v e. DesiredUtilityVersion d c (NginxCanonicalName d) = Inr v \<and> newNginxHandle d v = Inl e) \<or>
           (\<exists>e. newPrometheusHandle d c = Inl e) \<or>
           (\<exists>e. DesiredUtilityVersion d c (FluentbitCanonicalName d) = Inl e) \<or>
           (\<exists>v e. DesiredUtilityVersion d c (FluentbitCanonicalName d) = Inr v \<and> newFluentbitHandle d v = Inl e) \<or>
           (\<exists>e. DesiredUtilityVersion d c (TeleportCanonicalName d) = Inl e) \<or>
           (\<exists>v e. DesiredUtilityVersion d c (TeleportCanonicalName d) = Inr v \<and> newTeleportHandle d c v = Inl e)"
  shows "fst (newUtilityGroupHandle d c) = None \<and> snd (newUtilityGroupHandle d c) \<noteq> None"
  using assms unfolding newUtilityGroupHandle_def
  by (auto split: sum.splits)

text \<open>
  C7: if a lookup of a desired version or the construction of a handle fails, then
  \<^verbatim>\<open>newUtilityGroupHandle\<close> returns the nil group and an error, and the error is that of a
  failed step (under its context, for a constructor). A group that is returned comes
  with the nil error and holds the four utilities, each as its constructor returned it.
\<close>

theorem newUtilityGroupHandle_all_or_nothing:
  "((\<exists>e. DesiredUtilityVersion d c (NginxCanonicalName d) = Inl e) \<or>
    (\<exists>v e. DesiredUtilityVersion d c (NginxCanonicalName d) = Inr v \<and> newNginxHandle d v = Inl e) \<or>
    (\<exists>e. newPrometheusHandle d c = Inl e) \<or>
    (\<exists>e. DesiredUtilityVersion d c (FluentbitCanonicalName d) = Inl e) \<or>
    (\<exists>v e. DesiredUtilityVersion d c (FluentbitCanonicalName d) = Inr v \<and> newFluentbitHandle d v = Inl e) \<or>
    (\<exists>e. DesiredUtilityVersion d c (TeleportCanonicalName d) = Inl e) \<or>
    (\<exists>v e. DesiredUtilityVersion d c (TeleportCanonicalName d) = Inr v \<and> newTeleportHandle d c v = Inl e)
    \<longrightarrow> fst (newUtilityGroupHandle d c) = None \<and> snd (newUtilityGroupHandle d c) \<noteq> None) \<and>
   (\<forall>err. snd (newUtilityGroupHandle d c) = Some err \<longrightarrow>
      fst (newUtilityGroupHandle d c) = None \<and>
      (DesiredUtilityVersion d c (NginxCanonicalName d) = Inl err \<or>
       (\<exists>v e. DesiredUtilityVersion d c (NginxCanonicalName d) = Inr v \<and>
              newNginxHandle d v = Inl e \<and> err = Wrap e ''failed to get handle for NGINX'') \<or>
       (\<exists>e. newPrometheusHandle d c = Inl e \<and> err = Wrap e ''failed to get handle for Prometheus'') \<or>
       DesiredUtilityVersion d c (FluentbitCanonicalName d) = Inl err \<or>
       (\<exists>v e. DesiredUtilityVersion d c (FluentbitCanonicalName d) = Inr v \<and>
              newFluentbitHandle d v = Inl e \<and> err = Wrap e ''failed to get handle for Fluentbit'') \<or>
       DesiredUtilityVersion d c (TeleportCanonicalName d) = Inl err \<or>
       (\<exists>v e. DesiredUtilityVersion d c (TeleportCanonicalName d) = Inr v \<and>
              newTeleportHandle d c v = Inl e \<and> err = Wrap e ''failed to get handle for Teleport''))) \<and>
   (\<forall>g. fst (newUtilityGroupHandle d c) = Some g \<longrightarrow>
      snd (newUtilityGroupHandle d c) = None \<and>
      length (utilities g) = 4 \<and>
      (\<exists>v1 v2 v3 nginx prometheus fluentbit teleport.
         DesiredUtilityVersion d c (NginxCanonicalName d) = Inr v1 \<and>
         newNginxHandle d v1 = Inr nginx \<and>
         newPrometheusHandle d c = Inr prometheus \<and>
         DesiredUtilityVersion d c (FluentbitCanonicalName d) = Inr v2 \<and>
         newFluentbitHandle d v2 = Inr fluentbit \<and>
         DesiredUtilityVersion d c (TeleportCanonicalName d) = Inr v3 \<and>
         newTeleportHandle d c v3 = Inr teleport \<and>
         utilities g = [nginx, prometheus, fluentbit, teleport]))"
proof (intro conjI allI impI)
  fix g assume g: "fst (newUtilityGroupHandle d c) = Some g"
  from newUtilityGroupHandle_group[OF g]
  show "snd (newUtilityGroupHandle d c) = None" by blast
  from newUtilityGroupHandle_group[OF g]
  show "length (utilities g) = 4" by auto
  from newUtilityGroupHandle_group[OF g]
  show "\<exists>v1 v2 v3 nginx prometheus fluentbit teleport.
         DesiredUtilityVersion d c (NginxCanonicalName d) = Inr v1 \<and>
         newNginxHandle d v1 = Inr nginx \<and>
         newPrometheusHandle d c = Inr prometheus \<and>
         DesiredUtilityVersion d c (FluentbitCanonicalName d) = Inr v2 \<and>
         newFluentbitHandle d v2 = Inr fluentbit \<and>
         DesiredUtilityVersion d c (TeleportCanonicalName d) = Inr v3 \<and>
         newTeleportHandle d c v3 = Inr teleport \<and>
         utilities g = [nginx, prometheus, fluentbit, teleport]" by blast
qed (use newUtilityGroupHandle_fails[of d c] newUtilityGroupHandle_error[of d c] in blast)+

text \<open>
  The theorem at two clusters. For the first the Fluentbit handle cannot be built: no
  group is returned. For the second every step succeeds: the group has four utilities.
\<close>

theorem newUtilityGroupHandle_all_or_nothing_witness:
  "fst (newUtilityGroupHandle sampleHandles
          \<lparr>DesiredVersions = [(''fluentbit'', ''unbuildable'')], ActualVersions = []\<rparr>) = None \<and>
   snd (newUtilityGroupHandle sampleHandles
          \<lparr>DesiredVersions = [(''fluentbit'', ''unbuildable'')], ActualVersions = []\<rparr>) \<noteq> None \<and>
   (\<exists>g. fst (newUtilityGroupHandle sampleHandles
               \<lparr>DesiredVersions = [(''fluentbit'', ''2.8.7'')], ActualVersions = []\<rparr>) = Some g \<and>
        snd (newUtilityGroupHandle sampleHandles
               \<lparr>DesiredVersions = [(''fluentbit'', ''2.8.7'')], ActualVersions = []\<rparr>) = None \<and>
        length (utilities g) = 4)"
proof -
  let ?bad = "\<lparr>DesiredVersions = [(''fluentbit'', ''unbuildable'')], ActualVersions = []\<rparr>"
  let ?good = "\<lparr>DesiredVersions = [(''fluentbit'', ''2.8.7'')], ActualVersions = []\<rparr>"
  have fails: "\<exists>v e. DesiredUtilityVersion sampleHandles ?bad (FluentbitCanonicalName sampleHandles) = Inr v \<and>
                 newFluentbitHandle sampleHandles v = Inl e"
    by (simp add: sampleHandles_def)
  have built: "fst (newUtilityGroupHandle sampleHandles ?good) =
     Some \<lparr>utilities = [chartUtility ''nginx'' [], chartUtility ''prometheus'' ''10.4.0'',
                         chartUtility ''fluentbit'' ''2.8.7'', chartUtility ''teleport'' []]\<rparr>"
    by (simp add: newUtilityGroupHandle_def sampleHandles_def)
  from newUtilityGroupHandle_all_or_nothing[of sampleHandles ?bad] fails
  have "fst (newUtilityGroupHandle sampleHandles ?bad) = None \<and>
        snd (newUtilityGroupHandle sampleHandles ?bad) \<noteq> None"
    by blast
  moreover from newUtilityGroupHandle_all_or_nothing[of sampleHandles ?good] built
  have "snd (newUtilityGroupHandle sampleHandles ?good) = None \<and>
        length (utilities \<lparr>utilities = [chartUtility ''nginx'' [], chartUtility ''prometheus'' ''10.4.0'',
                         chartUtility ''fluentbit'' ''2.8.7'', chartUtility ''teleport'' []]\<rparr>) = 4"
    by blast
  ultimately show ?thesis using built by blast
qed

section \<open>The order of the calls\<close>

lemma newEvents_append: "events s' = events s @ evs \<Longrightarrow> newEvents s s' = evs"
  by (simp add: newEvents_def)




lemmas sample_defs =
  ProvisionUtilityGroup_def DestroyUtilityGroup_def Let_def SetUtilityActualVersion_def
  quietHelm_def helmRepos_def chartUtility_def brokenUtility_def freshState_def
  sampleGroup_def brokenGroup_def scenarioGroup_def scenarioCluster_def Wrap_def


section \<open>A failing utility\<close>

lemma ProvisionUtilityGroup_fails_at:
  assumes k: "k < length (utilities g)"
    and pre: "ProvisionUtilityGroup h ro (g\<lparr>utilities := take k (utilities g)\<rparr>) s = (None, s1)"
    and fail: "CreateOrUpgrade (utilities g ! k) (world s1) = (Some e, w)"
  shows "ProvisionUtilityGroup h ro g s =
           (Some (Wrap e ''failed to upgrade one of the cluster utilities''),
            s1\<lparr>world := w, events := events s1 @ [CalledCreateOrUpgrade (Name (utilities g ! k))]\<rparr>)"
proof -
  obtain r s0 where hp: "helmPrerequisites h ro s = (r, s0)"
    by (cases "helmPrerequisites h ro s")
  from pre hp have r: "r = None"
    by (cases r) (simp_all add: ProvisionUtilityGroup_steps)
  from pre hp r have "provisionUtilities (take k (utilities g)) s0 = (None, s1)"
    by (simp add: ProvisionUtilityGroup_steps)
  from provisionUtilities_fails_at[OF k this fail] hp r show ?thesis
    by (simp add: ProvisionUtilityGroup_steps)
qed

lemma DestroyUtilityGroup_fails_at:
  assumes k: "k < length (utilities g)"
    and pre: "DestroyUtilityGroup (g\<lparr>utilities := take k (utilities g)\<rparr>) s = (None, s1)"
    and fail: "Destroy (utilities g ! k) (world s1) = (Some e, w)"
  shows "DestroyUtilityGroup g s =
           (Some (Wrap e ''failed to destroy one of the cluster utilities''),
            s1\<lparr>world := w, events := events s1 @ [CalledDestroy (Name (utilities g ! k))]\<rparr>)"
proof -
  from pre have "destroyUtilities (take k (utilities g)) s = (None, s1)"
    by (simp add: DestroyUtilityGroup_def)
  from destroyUtilities_fails_at[OF k this fail] show ?thesis
    by (simp add: DestroyUtilityGroup_def)
qed

text \<open>
  C6, as stated, fails: the context under which the error of a utility is returned is
  a fixed sentence that names no utility. In the sample group whose third utility,
  Fluentbit, is broken, the error returned by either method does not mention Fluentbit.
\<close>

theorem error_context_names_no_utility_counterexample:
  "fst (ProvisionUtilityGroup quietHelm helmRepos brokenGroup (freshState scenarioCluster)) =
     Some ''failed to upgrade one of the cluster utilities: boom'' \<and>
   \<not> namesUtility ''failed to upgrade one of the cluster utilities: boom'' ''fluentbit'' \<and>
   fst (DestroyUtilityGroup brokenGroup (freshState scenarioCluster)) =
     Some ''failed to destroy one of the cluster utilities: boom'' \<and>
   \<not> namesUtility ''failed to destroy one of the cluster utilities: boom'' ''fluentbit''"
proof (intro conjI)
  show "fst (ProvisionUtilityGroup quietHelm helmRepos brokenGroup (freshState scenarioCluster)) =
     Some ''failed to upgrade one of the cluster utilities: boom''"
    by (simp add: sample_defs)
  show "fst (DestroyUtilityGroup brokenGroup (freshState scenarioCluster)) =
     Some ''failed to destroy one of the cluster utilities: boom''"
    by (simp add: sample_defs)
  show "\<not> namesUtility ''failed to upgrade one of the cluster utilities: boom'' ''fluentbit''"
    unfolding namesUtility_def by code_simp
  show "\<not> namesUtility ''failed to destroy one of the cluster utilities: boom'' ''fluentbit''"
    unfolding namesUtility_def by code_simp
qed

text \<open>
  C6, amended: suppose the utilities before position \<open>k\<close> are provisioned with the nil
  error, which leaves the state \<open>s1\<close>, and \<^verbatim>\<open>CreateOrUpgrade\<close> of the utility at position
  \<open>k\<close> then fails with the error \<open>e\<close>. Then \<^verbatim>\<open>ProvisionUtilityGroup\<close> of the whole group
  returns \<open>e\<close> under the fixed context ``failed to upgrade one of the cluster
  utilities'', and the state it leaves is \<open>s1\<close> but for what the failed call did to the
  world and for the event of that call: no later utility is called, and the cluster
  record holds what was persisted for the earlier ones. The same holds of
  \<^verbatim>\<open>DestroyUtilityGroup\<close>, \<^verbatim>\<open>Destroy\<close> and the context ``failed to destroy one of the
  cluster utilities''.
\<close>

theorem utility_failure_aborts_and_keeps_state:
  "(k < length (utilities g) \<and>
    ProvisionUtilityGroup h ro (g\<lparr>utilities := take k (utilities g)\<rparr>) s = (None, s1) \<and>
    CreateOrUpgrade (utilities g ! k) (world s1) = (Some e, w) \<longrightarrow>
      ProvisionUtilityGroup h ro g s =
        (Some (''failed to upgrade one of the cluster utilities: '' @ e),
         s1\<lparr>world := w, events := events s1 @ [CalledCreateOrUpgrade (Name (utilities g ! k))]\<rparr>)) \<and>
   (k < length (utilities g) \<and>
    DestroyUtilityGroup (g\<lparr>utilities := take k (utilities g)\<rparr>) s = (None, t1) \<and>
    Destroy (utilities g ! k) (world t1) = (Some e', w') \<longrightarrow>
      DestroyUtilityGroup g s =
        (Some (''failed to destroy one of the cluster utilities: '' @ e'),
         t1\<lparr>world := w', events := events t1 @ [CalledDestroy (Name (utilities g ! k))]\<rparr>))"
  using ProvisionUtilityGroup_fails_at[of k g h ro s s1 e w]
        DestroyUtilityGroup_fails_at[of k g s t1 e' w']
  by (simp add: Wrap_def)

text \<open>
  The theorem at the sample group whose third utility is broken: both methods return
  the error of the broken utility under the fixed context, and the versions of the two
  utilities before it stay on the cluster record.
\<close>

theorem utility_failure_aborts_and_keeps_state_witness:
  "fst (ProvisionUtilityGroup quietHelm helmRepos brokenGroup (freshState scenarioCluster)) =
     Some ''failed to upgrade one of the cluster utilities: boom'' \<and>
   ActualVersions (cluster (snd (ProvisionUtilityGroup quietHelm helmRepos brokenGroup
                                   (freshState scenarioCluster)))) =
     [(''nginx'', ''1.30.0''), (''prometheus'', ''10.4.0'')] \<and>
   createOrUpgradeCalls (events (snd (ProvisionUtilityGroup quietHelm helmRepos brokenGroup
                                   (freshState scenarioCluster)))) =
     [''nginx'', ''prometheus'', ''fluentbit''] \<and>
   fst (DestroyUtilityGroup brokenGroup (freshState scenarioCluster)) =
     Some ''failed to destroy one of the cluster utilities: boom'' \<and>
   destroyCalls (events (snd (DestroyUtilityGroup brokenGroup (freshState scenarioCluster)))) =
     [''nginx'', ''prometheus'', ''fluentbit'']"
proof -
  let ?s = "freshState scenarioCluster"
  let ?g2 = "brokenGroup\<lparr>utilities := take 2 (utilities brokenGroup)\<rparr>"
  define s1 where "s1 = snd (ProvisionUtilityGroup quietHelm helmRepos ?g2 ?s)"
  define t1 where "t1 = snd (DestroyUtilityGroup ?g2 ?s)"
  have s1: "s1 = \<lparr>world = [(''nginx'', ''1.30.0''), (''prometheus'', ''10.4.0'')],
                   cluster = \<lparr>DesiredVersions = [(''ingress'', ''v2''), (''metrics'', ''v5'')],
                              ActualVersions = [(''nginx'', ''1.30.0''), (''prometheus'', ''10.4.0'')]\<rparr>,
                   events = [CalledInstallHelm, Logged InfoLevel ''Adding new Helm repos.'',
                     CalledHelmRepoAdd ''stable'' ''https://kubernetes-charts.storage.googleapis.com'',
                     CalledHelmRepoAdd ''chartmuseum'' ''https://chartmuseum.internal.core.cloud.mattermost.com'',
                     CalledHelmRepoAdd ''ingress-nginx'' ''https://kubernetes.github.io/ingress-nginx'',
                     CalledCreateOrUpgrade ''nginx'', CalledSetUtilityActualVersion ''nginx'' ''1.30.0'',
                     CalledCreateOrUpgrade ''prometheus'',
                     CalledSetUtilityActualVersion ''prometheus'' ''10.4.0'']\<rparr>"
    unfolding s1_def by (simp add: sample_defs)
  have t1: "t1 = \<lparr>world = [],
                   cluster = \<lparr>DesiredVersions = [(''ingress'', ''v2''), (''metrics'', ''v5'')],
                              ActualVersions = [(''nginx'', []), (''prometheus'', [])]\<rparr>,
                   events = [CalledDestroy ''nginx'', CalledSetUtilityActualVersion ''nginx'' [],
                     CalledDestroy ''prometheus'', CalledSetUtilityActualVersion ''prometheus'' []]\<rparr>"
    unfolding t1_def by (simp add: sample_defs)
  have k: "2 < length (utilities brokenGroup)"
    by (simp add: brokenGroup_def)
  have p: "ProvisionUtilityGroup quietHelm helmRepos ?g2 ?s = (None, s1)"
    unfolding s1_def by (simp add: sample_defs)
  have d: "DestroyUtilityGroup ?g2 ?s = (None, t1)"
    unfolding t1_def by (simp add: sample_defs)
  have cf: "CreateOrUpgrade (utilities brokenGroup ! 2) (world s1) = (Some ''boom'', world s1)"
    by (simp add: brokenGroup_def brokenUtility_def)
  have df: "Destroy (utilities brokenGroup ! 2) (world t1) = (Some ''boom'', world t1)"
    by (simp add: brokenGroup_def brokenUtility_def)
  have n: "Name (utilities brokenGroup ! 2) = ''fluentbit''"
    by (simp add: brokenGroup_def brokenUtility_def)
  from utility_failure_aborts_and_keeps_state
         [of 2 brokenGroup quietHelm helmRepos ?s s1 "''boom''" "world s1" t1 "''boom''" "world t1"]
       k p d cf df
  have "ProvisionUtilityGroup quietHelm helmRepos brokenGroup ?s =
          (Some (''failed to upgrade one of the cluster utilities: '' @ ''boom''),
           s1\<lparr>world := world s1, events := events s1 @ [CalledCreateOrUpgrade (Name (utilities brokenGroup ! 2))]\<rparr>)"
       "DestroyUtilityGroup brokenGroup ?s =
          (Some (''failed to destroy one of the cluster utilities: '' @ ''boom''),
           t1\<lparr>world := world t1, events := events t1 @ [CalledDestroy (Name (utilities brokenGroup ! 2))]\<rparr>)"
    by blast+
  then show ?thesis
    by (simp add: n s1 t1 createOrUpgradeCalls_def destroyCalls_def)
qed

section \<open>The versions written to the cluster record\<close>

lemma map_of_writeVersions:
  "map_of (writeVersions ps al) = map_of al ++ map_of (rev ps)"
proof (induction ps arbitrary: al)
  case Nil
  then show ?case by (simp add: writeVersions_def)
next
  case (Cons p ps)
  obtain n v where p: "p = (n, v)" by (cases p)
  have "map_of (writeVersions (p # ps) al) = map_of (writeVersions ps (AList.update n v al))"
    by (simp add: writeVersions_def p)
  also have "\<dots> = map_of (AList.update n v al) ++ map_of (rev ps)" by (rule Cons.IH)
  also have "\<dots> = map_of al ++ map_of (rev (p # ps))"
    by (rule ext) (simp add: p update_conv' map_add_def split: option.splits)
  finally show ?case .
qed

lemma map_of_writeVersions_other:
  "n \<notin> fst ` set ps \<Longrightarrow> map_of (writeVersions ps al) n = map_of al n"
proof -
  assume "n \<notin> fst ` set ps"
  then have "map_of (rev ps) n = None"
    by (simp add: map_of_eq_None_iff)
  then show ?thesis
    by (simp add: map_of_writeVersions map_add_def)
qed

lemma map_of_writeVersions_written:
  assumes "distinct (map fst ps)" and "(n, v) \<in> set ps"
  shows "map_of (writeVersions ps al) n = Some v"
proof -
  from assms have "map_of (rev ps) n = Some v"
    by (simp add: rev_map[symmetric])
  then show ?thesis by (simp add: map_of_writeVersions)
qed

lemma map_fst_reportedVersions: "map fst (reportedVersions us w) = map Name us"
  by (induction us arbitrary: w) (simp_all add: Let_def)

lemma length_reportedVersions: "length (reportedVersions us w) = length us"
  by (induction us arbitrary: w) (simp_all add: Let_def)

lemma reportedVersions_nth:
  "i < length us \<Longrightarrow>
     reportedVersions us w ! i =
       (Name (us ! i), ActualVersion (us ! i) (worldAfter (take (Suc i) us) w))"
proof (induction us arbitrary: w i)
  case Nil
  then show ?case by simp
next
  case (Cons u us)
  show ?case
  proof (cases i)
    case 0
    then show ?thesis by (simp add: Let_def worldAfter_def)
  next
    case (Suc j)
    with Cons.prems have "j < length us" by simp
    from Cons.IH[OF this] show ?thesis using Suc by (simp add: Let_def worldAfter_def)
  qed
qed

lemma reportedVersions_take:
  assumes "k \<le> length us"
  shows "reportedVersions (take k us) w =
           map (\<lambda>i. (Name (us ! i), ActualVersion (us ! i) (worldAfter (take (Suc i) us) w))) [0..<k]"
proof (rule nth_equalityI)
  show "length (reportedVersions (take k us) w) =
          length (map (\<lambda>i. (Name (us ! i), ActualVersion (us ! i) (worldAfter (take (Suc i) us) w))) [0..<k])"
    using assms by (simp add: length_reportedVersions)
next
  fix i assume "i < length (reportedVersions (take k us) w)"
  with assms have i: "i < k" by (simp add: length_reportedVersions)
  with assms have "i < length (take k us)" by simp
  from reportedVersions_nth[OF this, of w] i
  show "reportedVersions (take k us) w ! i =
          map (\<lambda>i. (Name (us ! i), ActualVersion (us ! i) (worldAfter (take (Suc i) us) w))) [0..<k] ! i"
    by (simp add: min_absorb1)
qed

lemma provisionEvents_calls [simp]:
  "createOrUpgradeCalls (provisionEvents ps) = map fst ps"
  "setUtilityActualVersionCalls (provisionEvents ps) = ps"
  by (induction ps)
     (auto simp: provisionEvents_def createOrUpgradeCalls_def setUtilityActualVersionCalls_def)

lemma single_event_calls [simp]:
  "createOrUpgradeCalls [CalledCreateOrUpgrade n] = [n]"
  "setUtilityActualVersionCalls [CalledCreateOrUpgrade n] = []"
  by (simp_all add: createOrUpgradeCalls_def setUtilityActualVersionCalls_def)

lemma provisionUtilities_take_succeeds:
  assumes k: "k \<le> length us"
    and ok: "\<forall>i<k. fst (CreateOrUpgrade (us ! i) (worldAfter (take i us) (world s))) = None"
  shows "\<exists>s'. provisionUtilities (take k us) s = (None, s')"
proof (rule provisionUtilities_all_succeed, intro allI impI)
  fix i assume "i < length (take k us)"
  with k have i: "i < k" by simp
  with ok have "fst (CreateOrUpgrade (us ! i) (worldAfter (take i us) (world s))) = None"
    by blast
  with i show "fst (CreateOrUpgrade (take k us ! i) (worldAfter (take i (take k us)) (world s))) = None"
    by (simp add: min_absorb1)
qed

text \<open>
  What a run of \<^verbatim>\<open>ProvisionUtilityGroup\<close> returns and leaves when the Helm
  prerequisites succeed, the utilities before position \<open>k\<close> succeed and the one at
  position \<open>k\<close> fails.
\<close>

lemma ProvisionUtilityGroup_failure_state:
  assumes pre: "helmPrerequisites h ro s = (None, s0)"
    and k: "k < length (utilities g)"
    and ok: "\<forall>i<k. fst (CreateOrUpgrade (utilities g ! i)
                           (worldAfter (take i (utilities g)) (world s0))) = None"
    and fail: "fst (CreateOrUpgrade (utilities g ! k)
                      (worldAfter (take k (utilities g)) (world s0))) = Some e"
  shows "\<exists>evs0 w.
           createOrUpgradeCalls evs0 = [] \<and> setUtilityActualVersionCalls evs0 = [] \<and>
           ProvisionUtilityGroup h ro g s =
             (Some (Wrap e ''failed to upgrade one of the cluster utilities''),
              \<lparr>world = w,
               cluster = (cluster s)\<lparr>ActualVersions :=
                  writeVersions (reportedVersions (take k (utilities g)) (world s0))
                    (ActualVersions (cluster s))\<rparr>,
               events = events s @ evs0 @
                  provisionEvents (reportedVersions (take k (utilities g)) (world s0)) @
                  [CalledCreateOrUpgrade (Name (utilities g ! k))]\<rparr>)"
proof -
  let ?us = "utilities g"
  let ?rv = "reportedVersions (take k ?us) (world s0)"
  from helmPrerequisites_result[of h ro s] pre obtain evs0 where
    evs0: "events s0 = events s @ evs0" "cluster s0 = cluster s"
      "createOrUpgradeCalls evs0 = []" "setUtilityActualVersionCalls evs0 = []"
    by auto
  from k have "k \<le> length ?us" by simp
  from provisionUtilities_take_succeeds[OF this ok]
  obtain s1 where s1: "provisionUtilities (take k ?us) s0 = (None, s1)" by blast
  note shape = provisionUtilities_success[OF s1]
  have w1: "world s1 = worldAfter (take k ?us) (world s0)"
    by (rule provisionUtilities_world[OF s1])
  obtain w where cu: "CreateOrUpgrade (?us ! k) (world s1) = (Some e, w)"
    using fail w1 by (cases "CreateOrUpgrade (?us ! k) (world s1)") simp
  have "ProvisionUtilityGroup h ro g s = provisionUtilities ?us s0"
    by (simp add: ProvisionUtilityGroup_steps pre)
  also have "\<dots> = (Some (Wrap e ''failed to upgrade one of the cluster utilities''),
            s1\<lparr>world := w, events := events s1 @ [CalledCreateOrUpgrade (Name (?us ! k))]\<rparr>)"
    by (rule provisionUtilities_fails_at[OF k s1 cu])
  also have "s1\<lparr>world := w, events := events s1 @ [CalledCreateOrUpgrade (Name (?us ! k))]\<rparr> =
      \<lparr>world = w,
       cluster = (cluster s)\<lparr>ActualVersions := writeVersions ?rv (ActualVersions (cluster s))\<rparr>,
       events = events s @ evs0 @ provisionEvents ?rv @ [CalledCreateOrUpgrade (Name (?us ! k))]\<rparr>"
  proof (rule state.equality)
    show "cluster (s1\<lparr>world := w, events := events s1 @ [CalledCreateOrUpgrade (Name (?us ! k))]\<rparr>) =
          cluster \<lparr>world = w,
            cluster = (cluster s)\<lparr>ActualVersions := writeVersions ?rv (ActualVersions (cluster s))\<rparr>,
            events = events s @ evs0 @ provisionEvents ?rv @ [CalledCreateOrUpgrade (Name (?us ! k))]\<rparr>"
      by (subst shape) (simp add: evs0)
    show "events (s1\<lparr>world := w, events := events s1 @ [CalledCreateOrUpgrade (Name (?us ! k))]\<rparr>) =
          events \<lparr>world = w,
            cluster = (cluster s)\<lparr>ActualVersions := writeVersions ?rv (ActualVersions (cluster s))\<rparr>,
            events = events s @ evs0 @ provisionEvents ?rv @ [CalledCreateOrUpgrade (Name (?us ! k))]\<rparr>"
      by (subst shape) (simp add: evs0)
  qed simp_all
  finally show ?thesis using evs0(3,4) by blast
qed

text \<open>
  C2: let the Helm prerequisites succeed and leave the state \<open>s0\<close>, let
  \<^verbatim>\<open>CreateOrUpgrade\<close> succeed for the utilities before position \<open>k\<close> (counted from 0)
  and fail, with the error \<open>e\<close>, for the utility at position \<open>k\<close>. Then
  \<^verbatim>\<open>ProvisionUtilityGroup\<close> returns \<open>e\<close> under its context; it has called
  \<^verbatim>\<open>SetUtilityActualVersion\<close> exactly for the utilities before \<open>k\<close>, in order, each with
  its name and the actual version it reported right after its \<^verbatim>\<open>CreateOrUpgrade\<close>; it has
  called \<^verbatim>\<open>CreateOrUpgrade\<close> for the utilities up to \<open>k\<close> and for none after it; the
  actual versions of the cluster record are the former ones with these versions
  written. When no two utilities of the group have the same name, the record so gives
  each utility before \<open>k\<close> the version it reported, and the utilities from \<open>k\<close> on
  the entry they had before the run.
\<close>

theorem provision_failure_keeps_earlier_versions:
  assumes "helmPrerequisites h ro s = (None, s0)"
    and "k < length (utilities g)"
    and "\<forall>i<k. fst (CreateOrUpgrade (utilities g ! i)
                        (worldAfter (take i (utilities g)) (world s0))) = None"
    and "fst (CreateOrUpgrade (utilities g ! k)
                (worldAfter (take k (utilities g)) (world s0))) = Some e"
  shows "fst (ProvisionUtilityGroup h ro g s) =
           Some (Wrap e ''failed to upgrade one of the cluster utilities'') \<and>
         setUtilityActualVersionCalls (newEvents s (snd (ProvisionUtilityGroup h ro g s))) =
           map (\<lambda>i. (Name (utilities g ! i),
                      ActualVersion (utilities g ! i)
                        (worldAfter (take (Suc i) (utilities g)) (world s0)))) [0..<k] \<and>
         createOrUpgradeCalls (newEvents s (snd (ProvisionUtilityGroup h ro g s))) =
           map Name (take (Suc k) (utilities g)) \<and>
         ActualVersions (cluster (snd (ProvisionUtilityGroup h ro g s))) =
           writeVersions
             (map (\<lambda>i. (Name (utilities g ! i),
                        ActualVersion (utilities g ! i)
                          (worldAfter (take (Suc i) (utilities g)) (world s0)))) [0..<k])
             (ActualVersions (cluster s)) \<and>
         (distinct (map Name (utilities g)) \<longrightarrow>
            (\<forall>i<k. map_of (ActualVersions (cluster (snd (ProvisionUtilityGroup h ro g s))))
                      (Name (utilities g ! i)) =
                    Some (ActualVersion (utilities g ! i)
                            (worldAfter (take (Suc i) (utilities g)) (world s0)))) \<and>
            (\<forall>j. k \<le> j \<and> j < length (utilities g) \<longrightarrow>
                  map_of (ActualVersions (cluster (snd (ProvisionUtilityGroup h ro g s))))
                    (Name (utilities g ! j)) =
                  map_of (ActualVersions (cluster s)) (Name (utilities g ! j))))"
proof -
  let ?us = "utilities g"
  let ?run = "ProvisionUtilityGroup h ro g s"
  let ?v = "\<lambda>i. (Name (?us ! i), ActualVersion (?us ! i) (worldAfter (take (Suc i) ?us) (world s0)))"
  let ?rv = "reportedVersions (take k ?us) (world s0)"
  from assms(2) have kle: "k \<le> length ?us" by simp
  have rv: "?rv = map ?v [0..<k]"
    by (rule reportedVersions_take[OF kle])
  have names: "map fst ?rv = map Name (take k ?us)"
    by (rule map_fst_reportedVersions)
  from ProvisionUtilityGroup_failure_state[OF assms(1-4)] obtain evs0 w where
    evs0: "createOrUpgradeCalls evs0 = []" "setUtilityActualVersionCalls evs0 = []"
    and run: "?run =
       (Some (Wrap e ''failed to upgrade one of the cluster utilities''),
        \<lparr>world = w,
         cluster = (cluster s)\<lparr>ActualVersions := writeVersions ?rv (ActualVersions (cluster s))\<rparr>,
         events = events s @ evs0 @ provisionEvents ?rv @ [CalledCreateOrUpgrade (Name (?us ! k))]\<rparr>)"
    by blast
  have new: "newEvents s (snd ?run) =
               evs0 @ provisionEvents ?rv @ [CalledCreateOrUpgrade (Name (?us ! k))]"
    by (rule newEvents_append) (simp add: run)
  have err: "fst ?run = Some (Wrap e ''failed to upgrade one of the cluster utilities'')"
    by (simp add: run)
  have sets: "setUtilityActualVersionCalls (newEvents s (snd ?run)) = map ?v [0..<k]"
    by (simp add: new evs0 rv[symmetric])
  have "createOrUpgradeCalls (newEvents s (snd ?run)) = map Name (take k ?us) @ [Name (?us ! k)]"
    by (simp add: new evs0 names)
  then have calls: "createOrUpgradeCalls (newEvents s (snd ?run)) = map Name (take (Suc k) ?us)"
    using assms(2) by (simp add: take_Suc_conv_app_nth)
  have av: "ActualVersions (cluster (snd ?run)) = writeVersions ?rv (ActualVersions (cluster s))"
    by (simp add: run)
  have dist: "distinct (map fst ?rv)" if "distinct (map Name ?us)"
    unfolding names using that by (simp add: distinct_take take_map[symmetric])
  have written: "\<forall>i<k. map_of (ActualVersions (cluster (snd ?run))) (Name (?us ! i)) =
                   Some (ActualVersion (?us ! i) (worldAfter (take (Suc i) ?us) (world s0)))"
    if d: "distinct (map Name ?us)"
  proof (intro allI impI)
    fix i assume i: "i < k"
    then have "?v i \<in> set (map ?v [0..<k])" by simp
    then have "?v i \<in> set ?rv" by (simp only: rv)
    from map_of_writeVersions_written[OF dist[OF d] this]
    show "map_of (ActualVersions (cluster (snd ?run))) (Name (?us ! i)) =
            Some (ActualVersion (?us ! i) (worldAfter (take (Suc i) ?us) (world s0)))"
      by (simp only: av)
  qed
  have kept: "\<forall>j. k \<le> j \<and> j < length ?us \<longrightarrow>
                map_of (ActualVersions (cluster (snd ?run))) (Name (?us ! j)) =
                map_of (ActualVersions (cluster s)) (Name (?us ! j))"
    if d: "distinct (map Name ?us)"
  proof (intro allI impI)
    fix j assume j: "k \<le> j \<and> j < length ?us"
    have "Name (?us ! j) \<notin> set (map Name (take k ?us))"
    proof
      assume "Name (?us ! j) \<in> set (map Name (take k ?us))"
      then obtain i where i: "i < k" "i < length ?us" "Name (?us ! i) = Name (?us ! j)"
        by (auto simp: in_set_conv_nth)
      with j d have "i = j"
        by (simp add: distinct_conv_nth)
      with i j show False by simp
    qed
    then have "Name (?us ! j) \<notin> fst ` set ?rv"
      using names by (metis set_map)
    from map_of_writeVersions_other[OF this]
    show "map_of (ActualVersions (cluster (snd ?run))) (Name (?us ! j)) =
            map_of (ActualVersions (cluster s)) (Name (?us ! j))"
      by (simp only: av)
  qed
  from err sets calls av written kept show ?thesis
    by (simp only: rv) blast
qed

text \<open>
  The theorem at the sample group whose third utility (position 2) is broken, on a
  cluster that recorded versions before: NGINX and Prometheus get the versions they
  report, and the entries of Fluentbit and Teleport are those of before the run.
\<close>

theorem provision_failure_keeps_earlier_versions_witness:
  "fst (ProvisionUtilityGroup quietHelm helmRepos brokenGroup (freshState deployedCluster)) =
     Some ''failed to upgrade one of the cluster utilities: boom'' \<and>
   setUtilityActualVersionCalls
     (newEvents (freshState deployedCluster)
        (snd (ProvisionUtilityGroup quietHelm helmRepos brokenGroup (freshState deployedCluster)))) =
     [(''nginx'', ''1.30.0''), (''prometheus'', ''10.4.0'')] \<and>
   createOrUpgradeCalls
     (newEvents (freshState deployedCluster)
        (snd (ProvisionUtilityGroup quietHelm helmRepos brokenGroup (freshState deployedCluster)))) =
     [''nginx'', ''prometheus'', ''fluentbit''] \<and>
   ActualVersions (cluster (snd (ProvisionUtilityGroup quietHelm helmRepos brokenGroup
                                   (freshState deployedCluster)))) =
     [(''nginx'', ''1.30.0''), (''fluentbit'', ''2.8.0''), (''teleport'', ''0.2.0''),
      (''prometheus'', ''10.4.0'')] \<and>
   map_of (ActualVersions (cluster (snd (ProvisionUtilityGroup quietHelm helmRepos brokenGroup
                                   (freshState deployedCluster))))) ''fluentbit'' =
     map_of (ActualVersions deployedCluster) ''fluentbit'' \<and>
   map_of (ActualVersions (cluster (snd (ProvisionUtilityGroup quietHelm helmRepos brokenGroup
                                   (freshState deployedCluster))))) ''teleport'' =
     map_of (ActualVersions deployedCluster) ''teleport''"
proof -
  let ?s = "freshState deployedCluster"
  let ?ready = "\<lparr>world = [], cluster = deployedCluster,
               events = [CalledInstallHelm, Logged InfoLevel ''Adding new Helm repos.'',
                 CalledHelmRepoAdd ''stable'' ''https://kubernetes-charts.storage.googleapis.com'',
                 CalledHelmRepoAdd ''chartmuseum'' ''https://chartmuseum.internal.core.cloud.mattermost.com'',
                 CalledHelmRepoAdd ''ingress-nginx'' ''https://kubernetes.github.io/ingress-nginx'']\<rparr>"
  let ?us = "utilities brokenGroup"
  have us: "?us = [chartUtility ''nginx'' ''1.30.0'', chartUtility ''prometheus'' ''10.4.0'',
                   brokenUtility ''fluentbit'' ''boom'', chartUtility ''teleport'' ''0.3.0'']"
    by (simp add: brokenGroup_def)
  have pre: "helmPrerequisites quietHelm helmRepos ?s = (None, ?ready)"
    by (simp add: helmPrerequisites_def sample_defs)
  have k: "2 < length ?us"
    by (simp add: us)
  have ok: "\<forall>i<2. fst (CreateOrUpgrade (?us ! i) (worldAfter (take i ?us) (world ?ready))) = None"
  proof (intro allI impI)
    fix i :: nat assume "i < 2"
    then consider "i = 0" | "i = 1" by linarith
    then show "fst (CreateOrUpgrade (?us ! i) (worldAfter (take i ?us) (world ?ready))) = None"
      by cases (simp_all add: us worldAfter_def chartUtility_def)
  qed
  have fail: "fst (CreateOrUpgrade (?us ! 2) (worldAfter (take 2 ?us) (world ?ready))) = Some ''boom''"
    by (simp add: us brokenUtility_def)
  have dist: "distinct (map Name ?us)"
    by (simp add: us chartUtility_def brokenUtility_def)
  have two: "[0..<2] = [0, 1]"
    by (simp add: upt_rec)
  note facts = provision_failure_keeps_earlier_versions[OF pre k ok fail]
  have j2: "2 \<le> (2::nat) \<and> 2 < length ?us" and j3: "2 \<le> (3::nat) \<and> 3 < length ?us"
    by (simp_all add: us)
  from facts dist have kept:
    "\<forall>j. 2 \<le> j \<and> j < length ?us \<longrightarrow>
        map_of (ActualVersions (cluster (snd (ProvisionUtilityGroup quietHelm helmRepos brokenGroup ?s))))
          (Name (?us ! j)) =
        map_of (ActualVersions (cluster ?s)) (Name (?us ! j))"
    by blast
  from kept j2 have f: "map_of (ActualVersions (cluster (snd (ProvisionUtilityGroup quietHelm helmRepos brokenGroup ?s))))
          (Name (?us ! 2)) = map_of (ActualVersions (cluster ?s)) (Name (?us ! 2))"
    by blast
  from kept j3 have t: "map_of (ActualVersions (cluster (snd (ProvisionUtilityGroup quietHelm helmRepos brokenGroup ?s))))
          (Name (?us ! 3)) = map_of (ActualVersions (cluster ?s)) (Name (?us ! 3))"
    by blast
  from facts f t show ?thesis
    by (simp add: two us worldAfter_def chartUtility_def brokenUtility_def Wrap_def
        writeVersions_def deployedCluster_def freshState_def)
qed

section \<open>Writing the same versions twice\<close>





















section \<open>The scenario of the specification\<close>

lemma scenario_utilities:
  "utilities scenarioGroup = [chartUtility ''ingress'' ''v2'', chartUtility ''metrics'' ''v5'']"
  by (simp add: scenarioGroup_def scenarioCluster_def)

lemma scenario_provisionUtilities:
  assumes "ActualVersions (cluster s0) = []"
  shows "fst (provisionUtilities (utilities scenarioGroup) s0) = None \<and>
         ActualVersions (cluster (snd (provisionUtilities (utilities scenarioGroup) s0))) =
           [(''ingress'', ''v2''), (''metrics'', ''v5'')] \<and>
         events (snd (provisionUtilities (utilities scenarioGroup) s0)) =
           events s0 @
           [CalledCreateOrUpgrade ''ingress'', CalledSetUtilityActualVersion ''ingress'' ''v2'',
            CalledCreateOrUpgrade ''metrics'', CalledSetUtilityActualVersion ''metrics'' ''v5'']"
  using assms
  by (simp add: scenario_utilities chartUtility_def Let_def SetUtilityActualVersion_def update_conv')

text \<open>
  C5, as stated, fails: \<^verbatim>\<open>helmRepos\<close> has three entries, so a successful run adds three
  repositories, not two.
\<close>

theorem scenario_two_registrations_counterexample:
  "fst (ProvisionUtilityGroup quietHelm helmRepos scenarioGroup (freshState scenarioCluster)) = None \<and>
   helmRepoAddCalls
     (events (snd (ProvisionUtilityGroup quietHelm helmRepos scenarioGroup
                     (freshState scenarioCluster)))) =
     [(''stable'', ''https://kubernetes-charts.storage.googleapis.com''),
      (''chartmuseum'', ''https://chartmuseum.internal.core.cloud.mattermost.com''),
      (''ingress-nginx'', ''https://kubernetes.github.io/ingress-nginx'')] \<and>
   length (helmRepoAddCalls
     (events (snd (ProvisionUtilityGroup quietHelm helmRepos scenarioGroup
                     (freshState scenarioCluster))))) \<noteq> 2"
  by (simp add: sample_defs helmRepoAddCalls_def)

text \<open>
  C5, amended: in the scenario (the cluster desires v2 of the ingress and v5 of the
  metrics and records no actual version), whatever Helm does and in whichever order the
  three entries of \<^verbatim>\<open>helmRepos\<close> are visited, a run of \<^verbatim>\<open>ProvisionUtilityGroup\<close> that
  returns the nil error leaves the actual versions v2 for the ingress and v5 for the
  metrics, in this order, and adds these events: the set-up of Helm, the log line,
  the three repositories, and only then, for the ingress and then for the metrics,
  \<^verbatim>\<open>CreateOrUpgrade\<close> and the write of the version.
\<close>

theorem scenario_three_registrations_then_utilities:
  assumes "mset ro = mset helmRepos"
    and "cluster s = scenarioCluster"
    and "fst (ProvisionUtilityGroup h ro scenarioGroup s) = None"
  shows "ActualVersions (cluster (snd (ProvisionUtilityGroup h ro scenarioGroup s))) =
           [(''ingress'', ''v2''), (''metrics'', ''v5'')] \<and>
         newEvents s (snd (ProvisionUtilityGroup h ro scenarioGroup s)) =
           [CalledInstallHelm, Logged InfoLevel ''Adding new Helm repos.''] @
           map (\<lambda>(n, u). CalledHelmRepoAdd n u) ro @
           [CalledCreateOrUpgrade ''ingress'', CalledSetUtilityActualVersion ''ingress'' ''v2'',
            CalledCreateOrUpgrade ''metrics'', CalledSetUtilityActualVersion ''metrics'' ''v5''] \<and>
         helmRepoAddCalls (newEvents s (snd (ProvisionUtilityGroup h ro scenarioGroup s))) = ro \<and>
         length (helmRepoAddCalls (newEvents s (snd (ProvisionUtilityGroup h ro scenarioGroup s)))) = 3"
proof -
  let ?run = "ProvisionUtilityGroup h ro scenarioGroup s"
  let ?loop = "[CalledCreateOrUpgrade ''ingress'', CalledSetUtilityActualVersion ''ingress'' ''v2'',
            CalledCreateOrUpgrade ''metrics'', CalledSetUtilityActualVersion ''metrics'' ''v5'']"
  obtain r s0 where hp: "helmPrerequisites h ro s = (r, s0)"
    by (cases "helmPrerequisites h ro s")
  from assms(3) hp have r: "r = None"
    by (cases r) (simp_all add: ProvisionUtilityGroup_steps)
  from helmPrerequisites_result[of h ro s] hp r
  have e0: "events s0 = events s @ [CalledInstallHelm, Logged InfoLevel ''Adding new Helm repos.''] @
              map (\<lambda>(n, u). CalledHelmRepoAdd n u) ro"
    and c0: "cluster s0 = cluster s"
    by auto
  from c0 assms(2) have "ActualVersions (cluster s0) = []"
    by (simp add: scenarioCluster_def)
  note loop = scenario_provisionUtilities[OF this]
  have run: "?run = provisionUtilities (utilities scenarioGroup) s0"
    by (simp add: ProvisionUtilityGroup_steps hp r)
  have av: "ActualVersions (cluster (snd ?run)) = [(''ingress'', ''v2''), (''metrics'', ''v5'')]"
    unfolding run using loop by blast
  have "events (snd ?run) =
          events s @ ([CalledInstallHelm, Logged InfoLevel ''Adding new Helm repos.''] @
            map (\<lambda>(n, u). CalledHelmRepoAdd n u) ro @ ?loop)"
    unfolding run using loop e0 by simp
  then have new: "newEvents s (snd ?run) =
          [CalledInstallHelm, Logged InfoLevel ''Adding new Helm repos.''] @
            map (\<lambda>(n, u). CalledHelmRepoAdd n u) ro @ ?loop"
    by (rule newEvents_append)
  have "helmRepoAddCalls [CalledInstallHelm, Logged InfoLevel ''Adding new Helm repos.''] = []"
       "helmRepoAddCalls ?loop = []"
    by (simp_all add: helmRepoAddCalls_def)
  then have calls: "helmRepoAddCalls (newEvents s (snd ?run)) = ro"
    unfolding new helmRepoAddCalls_append by simp
  from assms(1) have "size (mset ro) = size (mset helmRepos)" by simp
  then have "length ro = 3" by (simp add: helmRepos_def)
  with av new calls show ?thesis by simp
qed

text \<open>
  The theorem at the quiet Helm and a fresh state, the repositories being visited in
  the reverse of the order in which the table lists them.
\<close>

theorem scenario_three_registrations_then_utilities_witness:
  "ActualVersions (cluster (snd (ProvisionUtilityGroup quietHelm (rev helmRepos) scenarioGroup
                                   (freshState scenarioCluster)))) =
     [(''ingress'', ''v2''), (''metrics'', ''v5'')] \<and>
   newEvents (freshState scenarioCluster)
     (snd (ProvisionUtilityGroup quietHelm (rev helmRepos) scenarioGroup (freshState scenarioCluster))) =
     [CalledInstallHelm, Logged InfoLevel ''Adding new Helm repos.'',
      CalledHelmRepoAdd ''ingress-nginx'' ''https://kubernetes.github.io/ingress-nginx'',
      CalledHelmRepoAdd ''chartmuseum'' ''https://chartmuseum.internal.core.cloud.mattermost.com'',
      CalledHelmRepoAdd ''stable'' ''https://kubernetes-charts.storage.googleapis.com'',
      CalledCreateOrUpgrade ''ingress'', CalledSetUtilityActualVersion ''ingress'' ''v2'',
      CalledCreateOrUpgrade ''metrics'', CalledSetUtilityActualVersion ''metrics'' ''v5''] \<and>
   length (helmRepoAddCalls (newEvents (freshState scenarioCluster)
     (snd (ProvisionUtilityGroup quietHelm (rev helmRepos) scenarioGroup
             (freshState scenarioCluster))))) = 3"
proof -
  have perm: "mset (rev helmRepos) = mset helmRepos"
    by simp
  have c: "cluster (freshState scenarioCluster) = scenarioCluster"
    by (simp add: freshState_def)
  have ok: "fst (ProvisionUtilityGroup quietHelm (rev helmRepos) scenarioGroup
                   (freshState scenarioCluster)) = None"
    by (simp add: sample_defs)
  note run = scenario_three_registrations_then_utilities[OF perm c ok]
  have visited: "map (\<lambda>(n, u). CalledHelmRepoAdd n u) (rev helmRepos) =
     [CalledHelmRepoAdd ''ingress-nginx'' ''https://kubernetes.github.io/ingress-nginx'',
      CalledHelmRepoAdd ''chartmuseum'' ''https://chartmuseum.internal.core.cloud.mattermost.com'',
      CalledHelmRepoAdd ''stable'' ''https://kubernetes-charts.storage.googleapis.com'']"
    by (simp add: helmRepos_def)
  from run[THEN conjunct1] run[THEN conjunct2, THEN conjunct1]
       run[THEN conjunct2, THEN conjunct2, THEN conjunct2]
  show ?thesis
    unfolding visited by simp
qed

end
